theory Spec2Isabelle
  imports Complex_Main "HOL-Library.Multiset" "HOL-Library.Option_ord"
begin

section \<open>Errors\<close>

text \<open>
  Every exception the modelled code can raise is a value. \<open>ArrowInvalid\<close> and
  \<open>KeyError\<close> are raised by pyarrow, \<open>BinderError\<close> and \<open>IOException\<close> by DuckDB,
  \<open>IndexError\<close> by Python's list indexing; \<open>CellTypeError\<close> and
  \<open>SearchFeatureNotAvailableError\<close> are raised by the repository's own code. An
  exception raised by one of the external collaborators of the endpoint is
  \<open>ExternalApiError\<close> when it is an \<open>ApiError\<close> and \<open>ExternalError\<close> otherwise.
\<close>

datatype error =
    CellTypeError
  | ArrowInvalid
  | KeyError
  | IndexError
  | BinderError
  | IOException
  | SearchFeatureNotAvailableError
  | ExternalApiError string
  | ExternalError string

definition and_then :: "error + 'a \<Rightarrow> ('a \<Rightarrow> error + 'b) \<Rightarrow> error + 'b" where
  "and_then r f = (case r of Inl e \<Rightarrow> Inl e | Inr x \<Rightarrow> f x)"


section \<open>models/column/int.py\<close>

text \<open>Python values, and \<open>type(value)\<close>. A \<open>bool\<close> is not of exact type \<open>int\<close>.\<close>

datatype pyval =
    PyNone
  | PyBool bool
  | PyInt int
  | PyFloat real
  | PyStr string
  | PyList "pyval list"
  | PyDict "(string \<times> pyval) list"

datatype pytype = NoneType | BoolType | IntType | FloatType | StrType | ListType | DictType

fun type_of :: "pyval \<Rightarrow> pytype" where
  "type_of PyNone = NoneType"
| "type_of (PyBool b) = BoolType"
| "type_of (PyInt i) = IntType"
| "type_of (PyFloat x) = FloatType"
| "type_of (PyStr s) = StrType"
| "type_of (PyList xs) = ListType"
| "type_of (PyDict kvs) = DictType"

text \<open>
  \<^verbatim>\<open>def check_value(value): if value is not None and type(value) != int: raise CellTypeError(...)\<close>
\<close>

definition check_value :: "pyval \<Rightarrow> error + unit" where
  "check_value value =
     (if value \<noteq> PyNone \<and> type_of value \<noteq> IntType then Inl CellTypeError else Inr ())"

text \<open>\<^verbatim>\<open>IntColumn.get_cell_value\<close>: \<^verbatim>\<open>check_value(value); return value\<close>.\<close>

definition get_cell_value :: "string \<Rightarrow> string \<Rightarrow> string \<Rightarrow> int \<Rightarrow> pyval \<Rightarrow> error + pyval" where
  "get_cell_value dataset_name config_name split_name row_idx value =
     (case check_value value of Inl e \<Rightarrow> Inl e | Inr u \<Rightarrow> Inr value)"


section \<open>Tables: pyarrow and DuckDB\<close>

text \<open>
  A cell of a table is null, an integer, a double or a string. A table (a \<open>pa.Table\<close>, a
  DuckDB relation) is its column names and its rows, each row holding one cell per column,
  in the order of the column names.
\<close>

datatype val = Null | IntV int | FloatV real | StrV string

record table =
  column_names :: "string list"
  rows :: "val list list"

definition num_rows :: "table \<Rightarrow> nat" where
  "num_rows t = length (rows t)"

text \<open>The cell of column \<open>c\<close> in a row (the first column of that name).\<close>

definition cell :: "string list \<Rightarrow> string \<Rightarrow> val list \<Rightarrow> val option" where
  "cell names c r = map_of (zip names r) c"

text \<open>A row without the cells of the columns \<open>cs\<close>.\<close>

definition remove_cells :: "string list \<Rightarrow> string list \<Rightarrow> val list \<Rightarrow> val list" where
  "remove_cells cs names r = map snd (filter (\<lambda>nv. fst nv \<notin> set cs) (zip names r))"

text \<open>
  \<^verbatim>\<open>pa.concat_tables(tables)\<close>: the tables must have the same schema, and there must be
  at least one (\<open>ArrowInvalid: Must pass at least one table\<close> otherwise).
\<close>

definition concat_tables :: "table list \<Rightarrow> error + table" where
  "concat_tables tables =
     (case tables of
        [] \<Rightarrow> Inl ArrowInvalid
      | t # ts \<Rightarrow>
          if list_all (\<lambda>u. column_names u = column_names t) ts
          then Inr \<lparr>column_names = column_names t, rows = concat (map rows tables)\<rparr>
          else Inl ArrowInvalid)"

text \<open>
  A stable descending sort by a key: insertion from the right, where a row goes before
  the rows whose key is not greater, so rows of equal key keep their order.
\<close>

fun insort_desc :: "('a \<Rightarrow> 'k::linorder) \<Rightarrow> 'a \<Rightarrow> 'a list \<Rightarrow> 'a list" where
  "insort_desc f x [] = [x]"
| "insort_desc f x (y # ys) = (if f y \<le> f x then x # y # ys else y # insort_desc f x ys)"

definition stable_sort_desc :: "('a \<Rightarrow> 'k::linorder) \<Rightarrow> 'a list \<Rightarrow> 'a list" where
  "stable_sort_desc f xs = foldr (insort_desc f) xs []"

text \<open>
  The sort key of a row for a double column: \<open>None\<close> (a null, or no double) is below
  every \<open>Some x\<close>, so nulls come last in descending order, as pyarrow places them.
\<close>

definition float_key :: "string list \<Rightarrow> string \<Rightarrow> val list \<Rightarrow> real option" where
  "float_key names c r = (case cell names c r of Some (FloatV x) \<Rightarrow> Some x | _ \<Rightarrow> None)"

text \<open>
  \<^verbatim>\<open>table.sort_by([(c, "descending")])\<close> for a double column \<open>c\<close>: a stable sort; the
  column must exist once.
\<close>

definition sort_by_descending :: "string \<Rightarrow> table \<Rightarrow> error + table" where
  "sort_by_descending c t =
     (if count_list (column_names t) c = 1
      then Inr (t\<lparr>rows := stable_sort_desc (float_key (column_names t) c) (rows t)\<rparr>)
      else Inl ArrowInvalid)"

text \<open>
  \<^verbatim>\<open>table.drop(columns)\<close>: \<open>KeyError\<close> unless every name is the name of exactly one
  column.
\<close>

definition drop_columns :: "string list \<Rightarrow> table \<Rightarrow> error + table" where
  "drop_columns cs t =
     (if list_all (\<lambda>c. count_list (column_names t) c = 1) cs
      then Inr \<lparr>column_names = filter (\<lambda>n. n \<notin> set cs) (column_names t),
                rows = map (remove_cells cs (column_names t)) (rows t)\<rparr>
      else Inl KeyError)"

text \<open>\<^verbatim>\<open>table.slice(offset, length)\<close>, for the non-negative offsets and lengths the endpoint passes.\<close>

definition slice :: "nat \<Rightarrow> nat \<Rightarrow> table \<Rightarrow> table" where
  "slice offset len t = t\<lparr>rows := take len (drop offset (rows t))\<rparr>"


section \<open>The index file and the three FTS commands\<close>

text \<open>
  An open connection to an index file: the table \<open>data\<close>, the relevance function
  \<open>fts_main_data.match_bm25(id, query)\<close> (\<open>None\<close> is SQL's NULL), and what the engine does
  for \<open>ORDER BY key DESC\<close> on rows with a non-null key. SQL leaves the order of rows of
  equal key to the engine, so the engine's sort is a parameter; \<open>sql_order_by\<close> is all
  that SQL promises of it.
\<close>

record con =
  data :: table
  match_bm25 :: "val \<Rightarrow> string \<Rightarrow> real option"
  order_by_desc :: "(real \<times> val list) list \<Rightarrow> (real \<times> val list) list"


text \<open>
  The \<open>__hf_index_id\<close> of a row of \<open>data\<close>. A table is rectangular, so a row has the cell
  when the table has the column; the commands are binder errors when it does not.
\<close>

definition hf_index_id :: "con \<Rightarrow> val list \<Rightarrow> val" where
  "hf_index_id c r =
     (case cell (column_names (data c)) ''__hf_index_id'' r of Some v \<Rightarrow> v | None \<Rightarrow> Null)"

text \<open>\<^verbatim>\<open>fts_main_data.match_bm25(__hf_index_id, ?) AS __hf_fts_score\<close> of a row of \<open>data\<close>.\<close>

definition fts_score :: "con \<Rightarrow> string \<Rightarrow> val list \<Rightarrow> real option" where
  "fts_score c query r = match_bm25 c (hf_index_id c r) query"

definition score_cell :: "real option \<Rightarrow> val" where
  "score_cell s = (case s of None \<Rightarrow> Null | Some x \<Rightarrow> FloatV x)"

text \<open>\<^verbatim>\<open>__hf_index_id BETWEEN lo and hi\<close>: both ends are included.\<close>

definition between :: "int \<Rightarrow> int \<Rightarrow> val \<Rightarrow> bool" where
  "between lo hi v = (case v of IntV i \<Rightarrow> lo \<le> i \<and> i \<le> hi | _ \<Rightarrow> False)"

text \<open>
  The three commands, with the query parameter and the values formatted into the text.
  \<^verbatim>\<open>FTS_BY_BATCHES_COMMAND.format(offset=lo, length=hi)\<close> is \<open>FTS_BY_BATCHES_COMMAND query lo hi\<close>.
\<close>

datatype sql =
    FTS_COUNT_COMMAND string
  | FTS_BY_TABLE_COMMAND string nat nat
  | FTS_BY_BATCHES_COMMAND string int int

definition FTS_BATCH_SIZE :: int where
  "FTS_BATCH_SIZE = 1000"

text \<open>
  The rows of the subquery \<^verbatim>\<open>(SELECT *, match_bm25(__hf_index_id, ?) AS __hf_fts_score FROM data) A\<close>
  that pass \<^verbatim>\<open>WHERE __hf_fts_score IS NOT NULL\<close>, each with its score and with the
  score as its last cell.
\<close>

definition scored_rows :: "con \<Rightarrow> string \<Rightarrow> val list list \<Rightarrow> (real \<times> val list) list" where
  "scored_rows c query rs =
     List.map_filter (\<lambda>r. map_option (\<lambda>s. (s, r @ [FloatV s])) (fts_score c query r)) rs"

text \<open>
  What \<^verbatim>\<open>con.execute(command).arrow()\<close> returns. A command that names a column that
  \<open>data\<close> does not have is a binder error.
  \<^item> \<open>FTS_COUNT_COMMAND\<close>: one row, one cell, the number of rows with a non-null score.
  \<^item> \<open>FTS_BY_TABLE_COMMAND\<close>: the rows with a non-null score, ordered by the engine by
    descending score, \<open>length\<close> of them from \<open>offset\<close> on, without the score column.
  \<^item> \<open>FTS_BY_BATCHES_COMMAND\<close>: the rows whose \<open>__hf_index_id\<close> is between the two bounds
    and whose score is not null, in the order of the table, with the score column.
\<close>

fun execute :: "con \<Rightarrow> sql \<Rightarrow> error + table" where
  "execute c (FTS_COUNT_COMMAND query) =
     (if ''__hf_index_id'' \<notin> set (column_names (data c)) then Inl BinderError
      else Inr \<lparr>column_names = [''count_star()''],
                rows = [[IntV (int (length (scored_rows c query (rows (data c)))))]]\<rparr>)"
| "execute c (FTS_BY_TABLE_COMMAND query offset len) =
     (if ''__hf_index_id'' \<notin> set (column_names (data c)) then Inl BinderError
      else
        let names = column_names (data c) @ [''__hf_fts_score''];
            ordered = order_by_desc c (scored_rows c query (rows (data c)));
            page = take len (drop offset ordered)
        in Inr \<lparr>column_names = filter (\<lambda>n. n \<noteq> ''__hf_fts_score'') names,
                  rows = map (\<lambda>sr. remove_cells [''__hf_fts_score''] names (snd sr)) page\<rparr>)"
| "execute c (FTS_BY_BATCHES_COMMAND query lo hi) =
     (if ''__hf_index_id'' \<notin> set (column_names (data c)) then Inl BinderError
      else Inr \<lparr>column_names = column_names (data c) @ [''__hf_fts_score''],
                rows = map snd (scored_rows c query
                         (filter (\<lambda>r. between lo hi (hf_index_id c r)) (rows (data c))))\<rparr>)"


section \<open>routes/search.py\<close>

text \<open>What a request does to the outside, in order.\<close>

datatype event = Download string | Connect string | Execute sql

text \<open>\<^verbatim>\<open>range(start, stop, step)\<close> for a positive step (the loop's step is \<open>FTS_BATCH_SIZE\<close>).\<close>

function py_range :: "int \<Rightarrow> int \<Rightarrow> int \<Rightarrow> int list" where
  "py_range start stop step =
     (if 0 < step \<and> start < stop then start # py_range (start + step) stop step else [])"
  by pat_completeness auto
termination
  by (relation "measure (\<lambda>(start, stop, step). nat (stop - start))") auto

declare py_range.simps [simp del]

text \<open>\<^verbatim>\<open>_search_by_table\<close>: one command.\<close>

definition search_by_table :: "con \<Rightarrow> string \<Rightarrow> nat \<Rightarrow> nat \<Rightarrow> (error + table) \<times> event list" where
  "search_by_table c query offset len =
     (execute c (FTS_BY_TABLE_COMMAND query offset len),
      [Execute (FTS_BY_TABLE_COMMAND query offset len)])"

text \<open>
  The loop of \<^verbatim>\<open>_search_by_batches\<close> over the remaining values of \<open>index\<close>, with
  \<open>num_matched_rows\<close> and \<open>pa_tables\<close> as they are on entry. A command that fails raises
  out of the loop; \<^verbatim>\<open>break\<close> leaves it when \<open>num_matched_rows > offset + length\<close>.
\<close>

fun search_by_batches_loop ::
  "con \<Rightarrow> string \<Rightarrow> nat \<Rightarrow> nat \<Rightarrow> int list \<Rightarrow> nat \<Rightarrow> table list \<Rightarrow> (error + table list) \<times> event list" where
  "search_by_batches_loop c query offset len [] num_matched_rows pa_tables = (Inr pa_tables, [])"
| "search_by_batches_loop c query offset len (index # rest) num_matched_rows pa_tables =
     (let fts_query = FTS_BY_BATCHES_COMMAND query index (index + FTS_BATCH_SIZE) in
      case execute c fts_query of
        Inl e \<Rightarrow> (Inl e, [Execute fts_query])
      | Inr pa_table \<Rightarrow>
          if num_matched_rows + num_rows pa_table > offset + len
          then (Inr (pa_tables @ [pa_table]), [Execute fts_query])
          else
            (case search_by_batches_loop c query offset len rest
                    (num_matched_rows + num_rows pa_table) (pa_tables @ [pa_table]) of
               (r, evs) \<Rightarrow> (r, Execute fts_query # evs)))"

text \<open>
  \<^verbatim>\<open>_search_by_batches\<close>: the loop over \<^verbatim>\<open>range(0, num_original_rows, FTS_BATCH_SIZE)\<close>,
  then \<^verbatim>\<open>concat_tables\<close>, \<^verbatim>\<open>sort_by\<close>, \<^verbatim>\<open>drop\<close> and \<^verbatim>\<open>slice\<close>.
\<close>

definition search_by_batches ::
  "int \<Rightarrow> con \<Rightarrow> string \<Rightarrow> nat \<Rightarrow> nat \<Rightarrow> (error + table) \<times> event list" where
  "search_by_batches num_original_rows c query offset len =
     (case search_by_batches_loop c query offset len
             (py_range 0 num_original_rows FTS_BATCH_SIZE) 0 [] of
        (r, evs) \<Rightarrow>
          (and_then r (\<lambda>pa_tables.
             and_then (concat_tables pa_tables) (\<lambda>pa_result.
             and_then (sort_by_descending ''__hf_fts_score'' pa_result) (\<lambda>sorted_result.
             and_then (drop_columns [''__hf_fts_score''] sorted_result) (\<lambda>dropped.
             Inr (slice offset len dropped))))),
           evs))"

text \<open>
  \<^verbatim>\<open>duckdb_connect(database=index_file_location)\<close> opens the file at that location, when
  there is one; \<open>files\<close> is the local file system.
\<close>

definition duckdb_connect :: "(string \<rightharpoonup> con) \<Rightarrow> string \<Rightarrow> error + con" where
  "duckdb_connect files index_file_location =
     (case files index_file_location of None \<Rightarrow> Inl IOException | Some c \<Rightarrow> Inr c)"

text \<open>\<^verbatim>\<open>count_result[0][0]\<close> of \<^verbatim>\<open>fetchall()\<close>.\<close>

definition first_cell :: "table \<Rightarrow> error + val" where
  "first_cell t =
     (case rows t of
        [] \<Rightarrow> Inl IndexError
      | r # rs \<Rightarrow> (case r of [] \<Rightarrow> Inl IndexError | v # vs \<Rightarrow> Inr v))"

text \<open>
  \<^verbatim>\<open>full_text_search\<close>: connect, count, then the strategy \<open>fts_batches\<close> selects; the
  result is \<^verbatim>\<open>(num_rows_total, pa_table)\<close>.
\<close>

definition full_text_search ::
  "(string \<rightharpoonup> con) \<Rightarrow> int \<Rightarrow> bool \<Rightarrow> string \<Rightarrow> string \<Rightarrow> nat \<Rightarrow> nat
     \<Rightarrow> (error + val \<times> table) \<times> event list" where
  "full_text_search files num_original_rows fts_batches index_file_location query offset len =
     (case duckdb_connect files index_file_location of
        Inl e \<Rightarrow> (Inl e, [Connect index_file_location])
      | Inr c \<Rightarrow>
          (case and_then (execute c (FTS_COUNT_COMMAND query)) first_cell of
             Inl e \<Rightarrow> (Inl e, [Connect index_file_location, Execute (FTS_COUNT_COMMAND query)])
           | Inr num_rows_total \<Rightarrow>
               (case (if fts_batches
                      then search_by_batches num_original_rows c query offset len
                      else search_by_table c query offset len) of
                  (r, evs) \<Rightarrow>
                    (and_then r (\<lambda>pa_table. Inr (num_rows_total, pa_table)),
                     Connect index_file_location # Execute (FTS_COUNT_COMMAND query) # evs))))"

text \<open>
  The endpoint. What it needs of its collaborators (parameter validation, authentication,
  the cache, the download, the file system) is a record of their outcomes.
\<close>

record request =
  r_dataset :: string
  r_config :: string
  r_split :: string
  r_query :: string
  r_offset :: nat
  r_length :: nat

record index_content =
  has_fts :: pyval
  url :: string
  filename :: string
  content_num_rows :: int

record cache_entry =
  http_status :: nat
  error_code :: "string option"
  dataset_git_revision :: "string option"
  content :: index_content

record services =
  get_request_parameters :: "error + request"
  auth_check :: "string \<Rightarrow> error option"
  get_cache_entry_from_duckdb_index_job :: "string \<Rightarrow> string \<Rightarrow> string \<Rightarrow> error + cache_entry"
  duckdb_index_is_partial :: "string \<Rightarrow> bool"
  get_index_file_location_and_download_if_missing :: "string \<Rightarrow> string \<Rightarrow> error + string"
  index_files :: "string \<rightharpoonup> con"
  unsupported_columns :: "string list"

datatype response =
    OkResponse val table bool
  | ErrorResponse nat "string option"
  | ApiErrorResponse error
  | UnexpectedApiErrorResponse error

definition HTTPStatus_OK :: nat where
  "HTTPStatus_OK = 200"

definition DATASETS_WITH_FTS_BY_BATCHES :: "string list" where
  "DATASETS_WITH_FTS_BY_BATCHES = [''wikimedia/wikipedia'', ''asoria/search_test'']"

text \<open>\<^verbatim>\<open>isinstance(e, ApiError)\<close>\<close>

fun is_api_error :: "error \<Rightarrow> bool" where
  "is_api_error SearchFeatureNotAvailableError = True"
| "is_api_error (ExternalApiError m) = True"
| "is_api_error e = False"

text \<open>The \<^verbatim>\<open>except Exception as e\<close> branch of the endpoint.\<close>

definition get_json_api_error_response :: "error \<Rightarrow> response" where
  "get_json_api_error_response e =
     (if is_api_error e then ApiErrorResponse e else UnexpectedApiErrorResponse e)"

text \<open>\<^verbatim>\<open>create_response\<close>, as far as the table goes: the unsupported columns are dropped.\<close>

definition create_response :: "table \<Rightarrow> string list \<Rightarrow> val \<Rightarrow> bool \<Rightarrow> error + response" where
  "create_response pa_table unsupported num_rows_total partial =
     and_then (drop_columns unsupported pa_table) (\<lambda>t. Inr (OkResponse num_rows_total t partial))"

definition search_endpoint :: "services \<Rightarrow> response \<times> event list" where
  "search_endpoint s =
     (case get_request_parameters s of
        Inl e \<Rightarrow> (get_json_api_error_response e, [])
      | Inr p \<Rightarrow>
     (case auth_check s (r_dataset p) of
        Some e \<Rightarrow> (get_json_api_error_response e, [])
      | None \<Rightarrow>
     (case get_cache_entry_from_duckdb_index_job s (r_dataset p) (r_config p) (r_split p) of
        Inl e \<Rightarrow> (get_json_api_error_response e, [])
      | Inr duckdb_index_cache_entry \<Rightarrow>
          if http_status duckdb_index_cache_entry \<noteq> HTTPStatus_OK
          then (ErrorResponse (http_status duckdb_index_cache_entry)
                  (error_code duckdb_index_cache_entry), [])
          else if has_fts (content duckdb_index_cache_entry) \<noteq> PyBool True
          then (get_json_api_error_response SearchFeatureNotAvailableError, [])
          else
            let c = content duckdb_index_cache_entry;
                partial = duckdb_index_is_partial s (url c)
            in
            (case get_index_file_location_and_download_if_missing s (filename c) (url c) of
               Inl e \<Rightarrow> (get_json_api_error_response e, [Download (url c)])
             | Inr index_file_location \<Rightarrow>
                 (case full_text_search (index_files s) (content_num_rows c)
                         (r_dataset p \<in> set DATASETS_WITH_FTS_BY_BATCHES)
                         index_file_location (r_query p) (r_offset p) (r_length p) of
                    (Inl e, evs) \<Rightarrow> (get_json_api_error_response e, Download (url c) # evs)
                  | (Inr (num_rows_total, pa_table), evs) \<Rightarrow>
                      (case create_response pa_table (unsupported_columns s) num_rows_total partial of
                         Inl e \<Rightarrow> (get_json_api_error_response e, Download (url c) # evs)
                       | Inr resp \<Rightarrow> (resp, Download (url c) # evs)))))))"


section \<open>What the specification speaks of\<close>

text \<open>The rows of the index with a non-null relevance score, in the order of the table.\<close>

definition matching_rows :: "con \<Rightarrow> string \<Rightarrow> val list list" where
  "matching_rows c query = filter (\<lambda>r. fts_score c query r \<noteq> None) (rows (data c))"


text \<open>
  An index as the indexing job builds it: \<open>data\<close> has the column \<open>__hf_index_id\<close>, has no
  column \<open>__hf_fts_score\<close>, and every row has one cell per column.
\<close>

definition wf_index :: "con \<Rightarrow> bool" where
  "wf_index c \<longleftrightarrow>
     ''__hf_index_id'' \<in> set (column_names (data c)) \<and>
     ''__hf_fts_score'' \<notin> set (column_names (data c)) \<and>
     list_all (\<lambda>r. length r = length (column_names (data c))) (rows (data c))"





text \<open>The table that the command for the window starting at \<open>w\<close> returns.\<close>

definition window_rows :: "con \<Rightarrow> string \<Rightarrow> int \<Rightarrow> val list list" where
  "window_rows c query w =
     map snd (scored_rows c query
       (filter (\<lambda>r. between w (w + FTS_BATCH_SIZE) (hf_index_id c r)) (rows (data c))))"


text \<open>The command the loop issues for the window starting at \<open>w\<close>.\<close>

definition window_query :: "string \<Rightarrow> int \<Rightarrow> sql" where
  "window_query query w = FTS_BY_BATCHES_COMMAND query w (w + FTS_BATCH_SIZE)"

definition is_count_command :: "event \<Rightarrow> bool" where
  "is_count_command ev = (case ev of Execute (FTS_COUNT_COMMAND q) \<Rightarrow> True | _ \<Rightarrow> False)"


text \<open>The rows of the index that the command for the window starting at \<open>w\<close> selects.\<close>

definition window_matches :: "con \<Rightarrow> string \<Rightarrow> int \<Rightarrow> val list list" where
  "window_matches c query w =
     filter (\<lambda>r. between w (w + FTS_BATCH_SIZE) (hf_index_id c r) \<and> fts_score c query r \<noteq> None)
       (rows (data c))"


text \<open>
  The windows that the loop scans, of the windows \<open>ws\<close> still to come when \<open>m\<close> rows are
  accumulated: each in turn, the last one being the first after which more than \<open>limit\<close>
  rows are accumulated.
\<close>

fun scanned_windows :: "con \<Rightarrow> string \<Rightarrow> nat \<Rightarrow> int list \<Rightarrow> nat \<Rightarrow> int list" where
  "scanned_windows c query limit [] m = []"
| "scanned_windows c query limit (w # ws) m =
     (if limit < m + length (window_matches c query w) then [w]
      else w # scanned_windows c query limit ws (m + length (window_matches c query w)))"


section \<open>Example indexes\<close>

text \<open>An index of \<open>n\<close> rows, numbered from 0, with one text column.\<close>

definition example_row :: "nat \<Rightarrow> val list" where
  "example_row i = [IntV (int i), StrV ''doc'']"

definition example_data :: "nat \<Rightarrow> table" where
  "example_data n = \<lparr>column_names = [''__hf_index_id'', ''text''], rows = map example_row [0..<n]\<rparr>"

text \<open>An engine whose \<open>ORDER BY\<close> keeps rows of equal key in the order of the table.\<close>

definition stable_engine :: "(real \<times> val list) list \<Rightarrow> (real \<times> val list) list" where
  "stable_engine xs = stable_sort_desc fst xs"


text \<open>
  The specification's end-to-end example: 2500 rows; the query matches rows 50 (score 9.1),
  1200 (score 8.7), 2100 (score 9.5) and 900 (score 9.5).
\<close>

definition spec_example_bm25 :: "val \<Rightarrow> string \<Rightarrow> real option" where
  "spec_example_bm25 v query =
     (if v = IntV 50 then Some 9.1
      else if v = IntV 1200 then Some 8.7
      else if v = IntV 2100 then Some 9.5
      else if v = IntV 900 then Some 9.5
      else None)"

definition spec_example :: con where
  "spec_example =
     \<lparr>data = example_data 2500, match_bm25 = spec_example_bm25, order_by_desc = stable_engine\<rparr>"

text \<open>
  An index of 2500 rows where the query matches rows 50 (score 9.1), 1200 (score 8.7) and
  2100 (score 9.5): one match in each window, all scores different.
\<close>

definition straddle_bm25 :: "val \<Rightarrow> string \<Rightarrow> real option" where
  "straddle_bm25 v query =
     (if v = IntV 50 then Some 9.1
      else if v = IntV 1200 then Some 8.7
      else if v = IntV 2100 then Some 9.5
      else None)"

definition straddle_example :: con where
  "straddle_example =
     \<lparr>data = example_data 2500, match_bm25 = straddle_bm25, order_by_desc = stable_engine\<rparr>"

text \<open>An index of 1001 rows where the query matches row 1000 only.\<close>

definition boundary_bm25 :: "val \<Rightarrow> string \<Rightarrow> real option" where
  "boundary_bm25 v query = (if v = IntV 1000 then Some 1 else None)"

definition boundary_example :: con where
  "boundary_example =
     \<lparr>data = example_data 1001, match_bm25 = boundary_bm25, order_by_desc = stable_engine\<rparr>"

text \<open>An index of three rows where the query matches rows 0 and 1 with the same score and row 2 with a lower one.\<close>

definition tie_bm25 :: "val \<Rightarrow> string \<Rightarrow> real option" where
  "tie_bm25 v query = (if v = IntV 2 then Some 1 else Some 2)"

definition tie_example :: "((real \<times> val list) list \<Rightarrow> (real \<times> val list) list) \<Rightarrow> con" where
  "tie_example engine =
     \<lparr>data = example_data 3, match_bm25 = tie_bm25, order_by_desc = engine\<rparr>"

text \<open>
  A request for ten rows of a split whose cache entry is a success and reports \<open>has_fts\<close>
  as \<open>v\<close>; the index file is the three-row index above.
\<close>

definition example_request :: request where
  "example_request =
     \<lparr>r_dataset = ''user/dataset'', r_config = ''default'', r_split = ''train'',
      r_query = ''doc'', r_offset = 0, r_length = 10\<rparr>"

definition example_entry :: "pyval \<Rightarrow> cache_entry" where
  "example_entry v =
     \<lparr>http_status = 200, error_code = None, dataset_git_revision = Some ''main'',
      content = \<lparr>has_fts = v, url = ''https://hub/index.duckdb'', filename = ''index.duckdb'',
                 content_num_rows = 3\<rparr>\<rparr>"

definition example_services :: "pyval \<Rightarrow> services" where
  "example_services v =
     \<lparr>get_request_parameters = Inr example_request,
      auth_check = (\<lambda>d. None),
      get_cache_entry_from_duckdb_index_job = (\<lambda>d c s. Inr (example_entry v)),
      duckdb_index_is_partial = (\<lambda>u. False),
      get_index_file_location_and_download_if_missing = (\<lambda>f u. Inr ''/cache/index.duckdb''),
      index_files = [''/cache/index.duckdb'' \<mapsto> tie_example stable_engine],
      unsupported_columns = []\<rparr>"

section \<open>Proofs\<close>

subsection \<open>Cells\<close>

lemma zip_snoc: "length xs = length ys \<Longrightarrow> zip (xs @ [a]) (ys @ [b]) = zip xs ys @ [(a, b)]"
  by simp

lemma cell_snoc:
  assumes "length r = length names" and "c \<notin> set names"
  shows "cell (names @ [c]) c (r @ [x]) = Some x"
proof -
  have "c \<notin> fst ` set (zip names r)"
    using assms(2) by (auto dest: set_zip_leftD)
  then have m: "map_of (zip names r) c = None"
    by (simp add: map_of_eq_None_iff)
  have "cell (names @ [c]) c (r @ [x]) = map_of (zip names r @ [(c, x)]) c"
    using assms(1) by (simp add: cell_def)
  also have "\<dots> = Some x"
    unfolding map_of_append map_add_def m by simp
  finally show ?thesis .
qed

lemma float_key_snoc:
  assumes "length r = length names" and "c \<notin> set names"
  shows "float_key (names @ [c]) c (r @ [score_cell s]) = s"
  using cell_snoc [OF assms] by (cases s) (simp_all add: float_key_def score_cell_def)

lemma remove_cells_snoc:
  assumes "length r = length names" and "c \<notin> set names"
  shows "remove_cells [c] (names @ [c]) (r @ [x]) = r"
proof -
  have "filter (\<lambda>nv. fst nv \<notin> set [c]) (zip names r) = zip names r"
    using assms(2) by (auto simp: filter_id_conv dest: set_zip_leftD)
  then show ?thesis
    using assms(1) by (simp add: remove_cells_def)
qed

subsection \<open>The scored rows\<close>

lemma scored_rows_Nil [simp]: "scored_rows c q [] = []"
  by (simp add: scored_rows_def List.map_filter_simps)

lemma scored_rows_Cons:
  "scored_rows c q (r # rs) =
     (case fts_score c q r of None \<Rightarrow> scored_rows c q rs
      | Some s \<Rightarrow> (s, r @ [FloatV s]) # scored_rows c q rs)"
  by (simp add: scored_rows_def List.map_filter_simps split: option.split)

lemma scored_rows_append: "scored_rows c q (xs @ ys) = scored_rows c q xs @ scored_rows c q ys"
  by (induction xs) (simp_all add: scored_rows_Cons split: option.split)

lemma map_snd_scored_rows:
  "map snd (scored_rows c q rs) =
     map (\<lambda>r. r @ [score_cell (fts_score c q r)]) (filter (\<lambda>r. fts_score c q r \<noteq> None) rs)"
  by (induction rs) (auto simp: scored_rows_Cons score_cell_def split: option.split)

lemma length_scored_rows:
  "length (scored_rows c q rs) = length (filter (\<lambda>r. fts_score c q r \<noteq> None) rs)"
  by (induction rs) (auto simp: scored_rows_Cons split: option.split)


subsection \<open>The stable descending sort\<close>

lemma mset_insort_desc: "mset (insort_desc f x ys) = add_mset x (mset ys)"
  by (induction ys) simp_all

lemma mset_stable_sort_desc: "mset (stable_sort_desc f xs) = mset xs"
  by (induction xs) (simp_all add: stable_sort_desc_def mset_insort_desc)

lemma set_insort_desc: "set (insort_desc f x ys) = insert x (set ys)"
  by (induction ys) auto

lemma set_stable_sort_desc: "set (stable_sort_desc f xs) = set xs"
  by (induction xs) (simp_all add: stable_sort_desc_def set_insort_desc)

lemma length_stable_sort_desc: "length (stable_sort_desc f xs) = length xs"
  using mset_stable_sort_desc [of f xs] by (metis size_mset)





lemma insort_desc_map:
  "insort_desc f (g x) (map g ys) = map g (insort_desc (\<lambda>y. f (g y)) x ys)"
  by (induction ys) simp_all

lemma stable_sort_desc_map:
  "stable_sort_desc f (map g xs) = map g (stable_sort_desc (\<lambda>y. f (g y)) xs)"
  by (induction xs) (simp_all add: stable_sort_desc_def insort_desc_map)

lemma insort_desc_cong:
  "f x = h x \<Longrightarrow> \<forall>y \<in> set ys. f y = h y \<Longrightarrow> insort_desc f x ys = insort_desc h x ys"
  by (induction ys) simp_all

lemma stable_sort_desc_cong:
  "\<forall>x \<in> set xs. f x = h x \<Longrightarrow> stable_sort_desc f xs = stable_sort_desc h xs"
proof (induction xs)
  case Nil
  show ?case by (simp add: stable_sort_desc_def)
next
  case (Cons x xs)
  then have eq: "stable_sort_desc f xs = stable_sort_desc h xs" by simp
  have "insort_desc f x (stable_sort_desc h xs) = insort_desc h x (stable_sort_desc h xs)"
    using Cons.prems by (intro insort_desc_cong) (simp_all add: set_stable_sort_desc)
  then show ?case by (simp add: stable_sort_desc_def eq [unfolded stable_sort_desc_def])
qed

subsection \<open>The loop\<close>

lemma execute_window:
  assumes "''__hf_index_id'' \<in> set (column_names (data c))"
  shows "execute c (FTS_BY_BATCHES_COMMAND q w (w + FTS_BATCH_SIZE)) =
           Inr \<lparr>column_names = column_names (data c) @ [''__hf_fts_score''], rows = window_rows c q w\<rparr>"
  using assms by (simp add: window_rows_def)

lemma loop_scan:
  assumes idc: "''__hf_index_id'' \<in> set (column_names (data c))"
  shows "\<exists>k. k \<le> length ws \<and> (ws \<noteq> [] \<longrightarrow> 0 < k) \<and>
           search_by_batches_loop c q offset len ws m acc =
             (Inr (acc @ map (\<lambda>w. \<lparr>column_names = column_names (data c) @ [''__hf_fts_score''],
                                   rows = window_rows c q w\<rparr>) (take k ws)),
              map (\<lambda>w. Execute (window_query q w)) (take k ws)) \<and>
           (\<forall>j. 0 < j \<and> j < k \<longrightarrow> m + length (concat (map (window_rows c q) (take j ws))) \<le> offset + len) \<and>
           (k < length ws \<longrightarrow> offset + len < m + length (concat (map (window_rows c q) (take k ws))))"
proof (induction ws arbitrary: m acc)
  case Nil
  show ?case by simp
next
  case (Cons w ws)
  let ?t = "\<lparr>column_names = column_names (data c) @ [''__hf_fts_score''], rows = window_rows c q w\<rparr>"
  have ex: "execute c (FTS_BY_BATCHES_COMMAND q w (w + FTS_BATCH_SIZE)) = Inr ?t"
    by (rule execute_window [OF idc])
  show ?case
  proof (cases "offset + len < m + length (window_rows c q w)")
    case True
    have "search_by_batches_loop c q offset len (w # ws) m acc =
            (Inr (acc @ [?t]), [Execute (window_query q w)])"
      using True by (simp add: ex num_rows_def window_query_def Let_def del: execute.simps)
    then show ?thesis
      using True by (intro exI [of _ 1]) simp
  next
    case False
    from Cons.IH [of "m + length (window_rows c q w)" "acc @ [?t]"]
    obtain k where k: "k \<le> length ws"
      and run: "search_by_batches_loop c q offset len ws (m + length (window_rows c q w)) (acc @ [?t]) =
             (Inr ((acc @ [?t]) @ map (\<lambda>w. \<lparr>column_names = column_names (data c) @ [''__hf_fts_score''],
                                   rows = window_rows c q w\<rparr>) (take k ws)),
              map (\<lambda>w. Execute (window_query q w)) (take k ws))"
      and before: "\<forall>j. 0 < j \<and> j < k \<longrightarrow>
              m + length (window_rows c q w) + length (concat (map (window_rows c q) (take j ws))) \<le> offset + len"
      and stop: "k < length ws \<longrightarrow>
              offset + len < m + length (window_rows c q w) + length (concat (map (window_rows c q) (take k ws)))"
      by blast
    have loop: "search_by_batches_loop c q offset len (w # ws) m acc =
            (Inr (acc @ map (\<lambda>w. \<lparr>column_names = column_names (data c) @ [''__hf_fts_score''],
                                   rows = window_rows c q w\<rparr>) (take (Suc k) (w # ws))),
              map (\<lambda>w. Execute (window_query q w)) (take (Suc k) (w # ws)))"
      using False by (simp add: ex num_rows_def run window_query_def Let_def del: execute.simps)
    have before': "\<forall>j. 0 < j \<and> j < Suc k \<longrightarrow>
              m + length (concat (map (window_rows c q) (take j (w # ws)))) \<le> offset + len"
    proof (intro allI impI)
      fix j assume j: "0 < j \<and> j < Suc k"
      then obtain i where i: "j = Suc i" by (cases j) auto
      show "m + length (concat (map (window_rows c q) (take j (w # ws)))) \<le> offset + len"
      proof (cases "i = 0")
        case True
        with False i show ?thesis by simp
      next
        case False
        with j i before have "m + length (window_rows c q w) +
            length (concat (map (window_rows c q) (take i ws))) \<le> offset + len"
          by simp
        with i show ?thesis by simp
      qed
    qed
    have stop': "Suc k < length (w # ws) \<longrightarrow>
              offset + len < m + length (concat (map (window_rows c q) (take (Suc k) (w # ws))))"
      using stop by (simp add: add.assoc)
    show ?thesis
      using k loop before' stop' by (intro exI [of _ "Suc k"]) simp
  qed
qed

subsection \<open>The pipeline after the loop\<close>

lemma window_rows_matches:
  "window_rows c q w = map (\<lambda>r. r @ [score_cell (fts_score c q r)]) (window_matches c q w)"
  by (simp add: window_rows_def window_matches_def map_snd_scored_rows conj_commute)

lemma length_window_rows: "length (window_rows c q w) = length (window_matches c q w)"
  by (simp add: window_rows_matches)

lemma length_concat_window_rows:
  "length (concat (map (window_rows c q) xs)) = length (concat (map (window_matches c q) xs))"
  by (induction xs) (simp_all add: length_window_rows)

lemma rows_of_window_tables:
  "concat (map rows (map (\<lambda>w. \<lparr>column_names = ns, rows = window_rows c q w\<rparr>) xs)) =
     map (\<lambda>r. r @ [score_cell (fts_score c q r)]) (concat (map (window_matches c q) xs))"
  by (induction xs) (simp_all add: window_rows_matches)

lemma concat_tables_same:
  assumes "ts \<noteq> []" and "\<forall>t \<in> set ts. column_names t = ns"
  shows "concat_tables ts = Inr \<lparr>column_names = ns, rows = concat (map rows ts)\<rparr>"
  using assms by (cases ts) (auto simp: concat_tables_def list_all_iff)

lemma count_list_snoc_new: "c \<notin> set names \<Longrightarrow> count_list (names @ [c]) c = 1"
  by (simp add: count_list_0_iff)

lemma wf_index_rows:
  "wf_index c \<Longrightarrow> r \<in> set (rows (data c)) \<Longrightarrow> length r = length (column_names (data c))"
  by (simp add: wf_index_def list_all_iff)

lemma window_matches_subset: "set (window_matches c q w) \<subseteq> set (rows (data c))"
  by (auto simp: window_matches_def)

lemma concat_window_matches_subset:
  "set (concat (map (window_matches c q) ws)) \<subseteq> set (rows (data c))"
  using window_matches_subset by fastforce

lemma pipeline:
  assumes wf: "wf_index c" and sub: "set A \<subseteq> set (rows (data c))"
  shows "and_then (sort_by_descending ''__hf_fts_score''
            \<lparr>column_names = column_names (data c) @ [''__hf_fts_score''],
             rows = map (\<lambda>r. r @ [score_cell (fts_score c q r)]) A\<rparr>)
          (\<lambda>sorted_result. and_then (drop_columns [''__hf_fts_score''] sorted_result)
            (\<lambda>dropped. Inr (slice offset len dropped))) =
         Inr \<lparr>column_names = column_names (data c),
              rows = take len (drop offset (stable_sort_desc (fts_score c q) A))\<rparr>"
proof -
  let ?names = "column_names (data c)"
  let ?sc = "''__hf_fts_score''"
  let ?with = "\<lambda>r. r @ [score_cell (fts_score c q r)]"
  let ?S = "stable_sort_desc (fts_score c q) A"
  have new: "?sc \<notin> set ?names" using wf by (simp add: wf_index_def)
  have len: "\<And>r. r \<in> set A \<Longrightarrow> length r = length ?names"
    using wf sub by (auto intro: wf_index_rows)
  have key: "\<forall>r \<in> set A. float_key (?names @ [?sc]) ?sc (?with r) = fts_score c q r"
    using len new by (simp add: float_key_snoc)
  have sorted_rows: "stable_sort_desc (float_key (?names @ [?sc]) ?sc) (map ?with A) = map ?with ?S"
    unfolding stable_sort_desc_map using stable_sort_desc_cong [OF key] by simp
  have 1: "sort_by_descending ?sc \<lparr>column_names = ?names @ [?sc], rows = map ?with A\<rparr> =
             Inr \<lparr>column_names = ?names @ [?sc], rows = map ?with ?S\<rparr>"
    using new by (simp add: sort_by_descending_def count_list_snoc_new sorted_rows)
  have strip: "map (\<lambda>r. remove_cells [?sc] (?names @ [?sc]) (?with r)) ?S = ?S"
  proof -
    have "\<forall>r \<in> set ?S. remove_cells [?sc] (?names @ [?sc]) (?with r) = r"
      using len new by (simp add: set_stable_sort_desc remove_cells_snoc)
    then show ?thesis by (simp add: map_idI)
  qed
  have 2: "drop_columns [?sc] \<lparr>column_names = ?names @ [?sc], rows = map ?with ?S\<rparr> =
             Inr \<lparr>column_names = ?names, rows = ?S\<rparr>"
    using new by (auto simp: drop_columns_def count_list_snoc_new comp_def strip filter_id_conv)
  show ?thesis
    unfolding 1 and_then_def sum.case 2 by (simp add: slice_def)
qed

lemma loop_scan0:
  assumes idc: "''__hf_index_id'' \<in> set (column_names (data c))"
  shows "\<exists>k. k \<le> length ws \<and> (ws \<noteq> [] \<longrightarrow> 0 < k) \<and>
           search_by_batches_loop c q offset len ws 0 [] =
             (Inr (map (\<lambda>w. \<lparr>column_names = column_names (data c) @ [''__hf_fts_score''],
                                   rows = window_rows c q w\<rparr>) (take k ws)),
              map (\<lambda>w. Execute (window_query q w)) (take k ws)) \<and>
           (\<forall>j. 0 < j \<and> j < k \<longrightarrow> length (concat (map (window_matches c q) (take j ws))) \<le> offset + len) \<and>
           (k < length ws \<longrightarrow> offset + len < length (concat (map (window_matches c q) (take k ws))))"
  using loop_scan [OF idc, of ws q offset len 0 "[]"]
  by (simp add: length_concat_window_rows)

lemma search_by_batches_wf:
  assumes wf: "wf_index c"
  shows "\<exists>k. k \<le> length (py_range 0 n FTS_BATCH_SIZE) \<and>
           (py_range 0 n FTS_BATCH_SIZE \<noteq> [] \<longrightarrow> 0 < k) \<and>
           snd (search_by_batches n c q offset len) =
             map (\<lambda>w. Execute (window_query q w)) (take k (py_range 0 n FTS_BATCH_SIZE)) \<and>
           (\<forall>j. 0 < j \<and> j < k \<longrightarrow>
              length (concat (map (window_matches c q) (take j (py_range 0 n FTS_BATCH_SIZE)))) \<le> offset + len) \<and>
           (k < length (py_range 0 n FTS_BATCH_SIZE) \<longrightarrow>
              offset + len < length (concat (map (window_matches c q) (take k (py_range 0 n FTS_BATCH_SIZE))))) \<and>
           fst (search_by_batches n c q offset len) =
             (if py_range 0 n FTS_BATCH_SIZE = [] then Inl ArrowInvalid
              else Inr \<lparr>column_names = column_names (data c),
                        rows = take len (drop offset (stable_sort_desc (fts_score c q)
                                 (concat (map (window_matches c q) (take k (py_range 0 n FTS_BATCH_SIZE))))))\<rparr>)"
proof -
  let ?ws = "py_range 0 n FTS_BATCH_SIZE"
  let ?names = "column_names (data c)"
  let ?tab = "\<lambda>w. \<lparr>column_names = ?names @ [''__hf_fts_score''], rows = window_rows c q w\<rparr>"
  let ?with = "\<lambda>r. r @ [score_cell (fts_score c q r)]"
  have idc: "''__hf_index_id'' \<in> set ?names" using wf by (simp add: wf_index_def)
  from loop_scan0 [OF idc, of ?ws q offset len]
  obtain k where k: "k \<le> length ?ws" "?ws \<noteq> [] \<longrightarrow> 0 < k"
    and run: "search_by_batches_loop c q offset len ?ws 0 [] =
                (Inr (map ?tab (take k ?ws)), map (\<lambda>w. Execute (window_query q w)) (take k ?ws))"
    and before: "\<forall>j. 0 < j \<and> j < k \<longrightarrow> length (concat (map (window_matches c q) (take j ?ws))) \<le> offset + len"
    and stop: "k < length ?ws \<longrightarrow> offset + len < length (concat (map (window_matches c q) (take k ?ws)))"
    by (elim exE conjE) blast
  let ?A = "concat (map (window_matches c q) (take k ?ws))"
  have res: "fst (search_by_batches n c q offset len) =
             (if ?ws = [] then Inl ArrowInvalid
              else Inr \<lparr>column_names = ?names, rows = take len (drop offset (stable_sort_desc (fts_score c q) ?A))\<rparr>)"
  proof (cases "?ws = []")
    case True
    then show ?thesis
      by (simp add: search_by_batches_def and_then_def concat_tables_def)
  next
    case False
    with k have kpos: "0 < k" by simp
    then have ne: "map ?tab (take k ?ws) \<noteq> []" using False by simp
    have rows_eq: "concat (map rows (map ?tab (take k ?ws))) = map ?with ?A"
      by (rule rows_of_window_tables)
    have ct: "concat_tables (map ?tab (take k ?ws)) =
                Inr \<lparr>column_names = ?names @ [''__hf_fts_score''], rows = map ?with ?A\<rparr>"
      using concat_tables_same [OF ne, of "?names @ [''__hf_fts_score'']"] rows_eq by simp
    have "fst (search_by_batches n c q offset len) =
            and_then (sort_by_descending ''__hf_fts_score''
                \<lparr>column_names = ?names @ [''__hf_fts_score''], rows = map ?with ?A\<rparr>)
              (\<lambda>sorted_result. and_then (drop_columns [''__hf_fts_score''] sorted_result)
                (\<lambda>dropped. Inr (slice offset len dropped)))"
      by (simp add: search_by_batches_def run ct and_then_def)
    also have "\<dots> = Inr \<lparr>column_names = ?names, rows = take len (drop offset (stable_sort_desc (fts_score c q) ?A))\<rparr>"
      by (rule pipeline [OF wf concat_window_matches_subset])
    finally show ?thesis using False by simp
  qed
  have evs: "snd (search_by_batches n c q offset len) = map (\<lambda>w. Execute (window_query q w)) (take k ?ws)"
    by (simp add: search_by_batches_def run)
  show ?thesis
    using k evs before stop res by blast
qed

subsection \<open>The windows\<close>




lemma py_range_Nil_iff: "0 < s \<Longrightarrow> py_range a b s = [] \<longleftrightarrow> b \<le> a"
  by (subst py_range.simps) auto

lemma sum_num_rows_window_tables:
  "sum_list (map num_rows (map (\<lambda>w. \<lparr>column_names = ns, rows = window_rows c q w\<rparr>) xs)) =
     length (concat (map (window_rows c q) xs))"
  by (induction xs) (simp_all add: num_rows_def)


subsection \<open>The commands of a search\<close>

lemma matching_rows_count:
  "length (scored_rows c q (rows (data c))) = length (matching_rows c q)"
  by (simp add: length_scored_rows matching_rows_def)

lemma search_by_table_events:
  "snd (search_by_table c q offset len) = [Execute (FTS_BY_TABLE_COMMAND q offset len)]"
  by (simp add: search_by_table_def)

lemma search_by_table_returns:
  assumes "''__hf_index_id'' \<in> set (column_names (data c))"
  shows "\<exists>t. fst (search_by_table c q offset len) = Inr t \<and>
           column_names t = filter (\<lambda>n. n \<noteq> ''__hf_fts_score'') (column_names (data c))"
  using assms by (simp add: search_by_table_def Let_def)

lemma window_query_not_count: "\<not> is_count_command (Execute (window_query q w))"
  by (simp add: is_count_command_def window_query_def)

lemma no_count_in_windows:
  "filter is_count_command (map (\<lambda>w. Execute (window_query q w)) ws) = []"
  by (induction ws) (simp_all add: window_query_not_count)

lemma loop_scanned:
  assumes idc: "''__hf_index_id'' \<in> set (column_names (data c))"
  shows "search_by_batches_loop c q offset len ws m acc =
           (Inr (acc @ map (\<lambda>w. \<lparr>column_names = column_names (data c) @ [''__hf_fts_score''],
                                 rows = window_rows c q w\<rparr>) (scanned_windows c q (offset + len) ws m)),
            map (\<lambda>w. Execute (window_query q w)) (scanned_windows c q (offset + len) ws m))"
proof (induction ws arbitrary: m acc)
  case Nil
  show ?case by simp
next
  case (Cons w ws)
  show ?case
    by (simp add: execute_window [OF idc] Cons.IH num_rows_def window_query_def Let_def
          length_window_rows del: execute.simps)
qed

lemma scanned_windows_subset: "set (scanned_windows c q limit ws m) \<subseteq> set ws"
  by (induction ws arbitrary: m) auto

lemma scanned_windows_Nil_iff: "scanned_windows c q limit ws m = [] \<longleftrightarrow> ws = []"
  by (cases ws) simp_all

lemma search_by_batches_eq:
  assumes wf: "wf_index c"
  shows "search_by_batches n c q offset len =
           (if n \<le> 0 then Inl ArrowInvalid
            else Inr \<lparr>column_names = column_names (data c),
                      rows = take len (drop offset (stable_sort_desc (fts_score c q)
                        (concat (map (window_matches c q)
                           (scanned_windows c q (offset + len) (py_range 0 n FTS_BATCH_SIZE) 0)))))\<rparr>,
            map (\<lambda>w. Execute (window_query q w))
              (scanned_windows c q (offset + len) (py_range 0 n FTS_BATCH_SIZE) 0))"
proof -
  let ?ws = "py_range 0 n FTS_BATCH_SIZE"
  let ?sw = "scanned_windows c q (offset + len) ?ws 0"
  let ?names = "column_names (data c)"
  let ?tab = "\<lambda>w. \<lparr>column_names = ?names @ [''__hf_fts_score''], rows = window_rows c q w\<rparr>"
  let ?with = "\<lambda>r. r @ [score_cell (fts_score c q r)]"
  let ?A = "concat (map (window_matches c q) ?sw)"
  have idc: "''__hf_index_id'' \<in> set ?names" using wf by (simp add: wf_index_def)
  have run: "search_by_batches_loop c q offset len ?ws 0 [] =
               (Inr (map ?tab ?sw), map (\<lambda>w. Execute (window_query q w)) ?sw)"
    using loop_scanned [OF idc, of q offset len ?ws 0 "[]"] by simp
  have empty: "?ws = [] \<longleftrightarrow> n \<le> 0"
    by (rule py_range_Nil_iff) (simp add: FTS_BATCH_SIZE_def)
  show ?thesis
  proof (cases "n \<le> 0")
    case True
    with empty have "?ws = []" by simp
    then show ?thesis
      using True by (simp add: search_by_batches_def and_then_def concat_tables_def)
  next
    case False
    with empty have "?sw \<noteq> []" by (simp add: scanned_windows_Nil_iff)
    then have ne: "map ?tab ?sw \<noteq> []" by simp
    have ct: "concat_tables (map ?tab ?sw) =
                Inr \<lparr>column_names = ?names @ [''__hf_fts_score''], rows = map ?with ?A\<rparr>"
      using concat_tables_same [OF ne, of "?names @ [''__hf_fts_score'']"]
        rows_of_window_tables [of "?names @ [''__hf_fts_score'']" c q ?sw] by simp
    have "fst (search_by_batches n c q offset len) =
            and_then (sort_by_descending ''__hf_fts_score''
                \<lparr>column_names = ?names @ [''__hf_fts_score''], rows = map ?with ?A\<rparr>)
              (\<lambda>sorted_result. and_then (drop_columns [''__hf_fts_score''] sorted_result)
                (\<lambda>dropped. Inr (slice offset len dropped)))"
      by (simp add: search_by_batches_def run ct and_then_def)
    also have "\<dots> = Inr \<lparr>column_names = ?names,
                 rows = take len (drop offset (stable_sort_desc (fts_score c q) ?A))\<rparr>"
      by (rule pipeline [OF wf concat_window_matches_subset])
    finally have res: "fst (search_by_batches n c q offset len) =
        Inr \<lparr>column_names = ?names, rows = take len (drop offset (stable_sort_desc (fts_score c q) ?A))\<rparr>" .
    have evs: "snd (search_by_batches n c q offset len) = map (\<lambda>w. Execute (window_query q w)) ?sw"
      by (simp add: search_by_batches_def run)
    show ?thesis
      using False res evs by (simp add: prod_eq_iff)
  qed
qed

subsection \<open>The example indexes\<close>

lemma tie_example_id_column:
  "''__hf_index_id'' \<in> set (column_names (data (tie_example e)))"
  by (simp add: tie_example_def example_data_def)

declare not_None_eq [simp del]

lemma example_index_id:
  assumes "data c = example_data n"
  shows "hf_index_id c (example_row i) = IntV (int i)"
  using assms by (simp add: hf_index_id_def cell_def example_data_def example_row_def)

lemma example_fts_score:
  assumes "data c = example_data n"
  shows "fts_score c q (example_row i) = match_bm25 c (IntV (int i)) q"
  by (simp add: fts_score_def example_index_id [OF assms])

lemma example_wf:
  assumes "data c = example_data n"
  shows "wf_index c"
  using assms by (simp add: wf_index_def example_data_def example_row_def list_all_iff)

lemma example_window_matches:
  assumes "data c = example_data n"
  shows "window_matches c q w =
           map example_row
             (filter (\<lambda>i. (w \<le> int i \<and> int i \<le> w + FTS_BATCH_SIZE) \<and> match_bm25 c (IntV (int i)) q \<noteq> None)
                [0..<n])"
  by (simp add: window_matches_def assms example_data_def filter_map comp_def
        example_index_id [OF assms] example_fts_score [OF assms] between_def)

lemma example_matching_rows:
  assumes "data c = example_data n"
  shows "matching_rows c q =
           map example_row (filter (\<lambda>i. match_bm25 c (IntV (int i)) q \<noteq> None) [0..<n])"
  by (simp add: matching_rows_def assms example_data_def filter_map comp_def
        example_fts_score [OF assms])

lemma filter_upt_eq:
  assumes "sorted is" and "distinct is" and "\<And>i. i \<in> set is \<longleftrightarrow> i < n \<and> P i"
  shows "filter P [0..<n] = is"
proof (rule sorted_distinct_set_unique)
  show "sorted (filter P [0..<n])" by (simp add: sorted_wrt_filter)
  show "distinct (filter P [0..<n])" by simp
  show "sorted is" by fact
  show "distinct is" by fact
  show "set (filter P [0..<n]) = set is" using assms(3) by auto
qed

subsection \<open>The direct strategy\<close>

lemma scored_rows_filter:
  "scored_rows c q (filter (\<lambda>r. fts_score c q r \<noteq> None) rs) = scored_rows c q rs"
  by (induction rs) (auto simp: scored_rows_Cons split: option.split)

lemma scored_rows_matching: "scored_rows c q (rows (data c)) = scored_rows c q (matching_rows c q)"
  by (simp add: matching_rows_def scored_rows_filter)

lemma search_by_table_eq:
  assumes "wf_index c"
  shows "search_by_table c q offset len =
           (Inr \<lparr>column_names = column_names (data c),
                 rows = map (\<lambda>sr. remove_cells [''__hf_fts_score'']
                                     (column_names (data c) @ [''__hf_fts_score'']) (snd sr))
                          (take len (drop offset (order_by_desc c (scored_rows c q (matching_rows c q)))))\<rparr>,
            [Execute (FTS_BY_TABLE_COMMAND q offset len)])"
proof -
  have "filter (\<lambda>n. n \<noteq> ''__hf_fts_score'') (column_names (data c)) = column_names (data c)"
    using assms by (auto simp: wf_index_def filter_id_conv)
  then show ?thesis
    using assms by (simp add: search_by_table_def wf_index_def Let_def scored_rows_matching)
qed

subsection \<open>The specification's example\<close>

lemma spec_example_data: "data spec_example = example_data 2500"
  by (simp add: spec_example_def)

lemma spec_example_match:
  "match_bm25 spec_example (IntV (int i)) q \<noteq> None \<longleftrightarrow> i = 50 \<or> i = 900 \<or> i = 1200 \<or> i = 2100"
  by (simp add: spec_example_def spec_example_bm25_def)

lemma spec_example_scores:
  "fts_score spec_example q (example_row 50) = Some 9.1"
  "fts_score spec_example q (example_row 900) = Some 9.5"
  "fts_score spec_example q (example_row 1200) = Some 8.7"
  "fts_score spec_example q (example_row 2100) = Some 9.5"
  unfolding example_fts_score [OF spec_example_data]
  by (simp_all add: spec_example_def spec_example_bm25_def)

lemma spec_example_window_0:
  "window_matches spec_example q 0 = [example_row 50, example_row 900]"
proof -
  have "filter (\<lambda>i. (0 \<le> int i \<and> int i \<le> 0 + FTS_BATCH_SIZE) \<and>
                   match_bm25 spec_example (IntV (int i)) q \<noteq> None) [0..<2500] = [50, 900]"
    by (rule filter_upt_eq) (auto simp: spec_example_match FTS_BATCH_SIZE_def)
  then show ?thesis
    by (simp add: example_window_matches [OF spec_example_data])
qed

lemma spec_example_window_1000:
  "window_matches spec_example q 1000 = [example_row 1200]"
proof -
  have "filter (\<lambda>i. (1000 \<le> int i \<and> int i \<le> 1000 + FTS_BATCH_SIZE) \<and>
                   match_bm25 spec_example (IntV (int i)) q \<noteq> None) [0..<2500] = [1200]"
    by (rule filter_upt_eq) (auto simp: spec_example_match FTS_BATCH_SIZE_def)
  then show ?thesis
    by (simp add: example_window_matches [OF spec_example_data])
qed

lemma spec_example_window_2000:
  "window_matches spec_example q 2000 = [example_row 2100]"
proof -
  have "filter (\<lambda>i. (2000 \<le> int i \<and> int i \<le> 2000 + FTS_BATCH_SIZE) \<and>
                   match_bm25 spec_example (IntV (int i)) q \<noteq> None) [0..<2500] = [2100]"
    by (rule filter_upt_eq) (auto simp: spec_example_match FTS_BATCH_SIZE_def)
  then show ?thesis
    by (simp add: example_window_matches [OF spec_example_data])
qed

lemma spec_example_windows: "py_range 0 2500 FTS_BATCH_SIZE = [0, 1000, 2000]"
  by (simp add: py_range.simps FTS_BATCH_SIZE_def)

lemma spec_example_scanned:
  "scanned_windows spec_example q (0 + 2) [0, 1000, 2000] 0 = [0, 1000]"
  by (simp add: spec_example_window_0 spec_example_window_1000)

lemma spec_example_sorted:
  "stable_sort_desc (fts_score spec_example q) [example_row 50, example_row 900, example_row 1200] =
     [example_row 900, example_row 50, example_row 1200]"
  by (simp add: stable_sort_desc_def spec_example_scores)

lemma spec_example_batches:
  "search_by_batches 2500 spec_example q 0 2 =
     (Inr \<lparr>column_names = [''__hf_index_id'', ''text''], rows = [example_row 900, example_row 50]\<rparr>,
      [Execute (FTS_BY_BATCHES_COMMAND q 0 1000), Execute (FTS_BY_BATCHES_COMMAND q 1000 2000)])"
  unfolding search_by_batches_eq [OF example_wf [OF spec_example_data]] spec_example_windows
    spec_example_scanned
  by (simp add: spec_example_window_0 spec_example_window_1000 spec_example_sorted
        window_query_def FTS_BATCH_SIZE_def spec_example_data example_data_def)

lemma spec_example_matching:
  "matching_rows spec_example q =
     [example_row 50, example_row 900, example_row 1200, example_row 2100]"
proof -
  have "filter (\<lambda>i. match_bm25 spec_example (IntV (int i)) q \<noteq> None) [0..<2500] = [50, 900, 1200, 2100]"
    by (rule filter_upt_eq) (auto simp: spec_example_match)
  then show ?thesis
    by (simp add: example_matching_rows [OF spec_example_data])
qed


subsection \<open>The index with a match on a window boundary\<close>

lemma boundary_example_data: "data boundary_example = example_data 1001"
  by (simp add: boundary_example_def)

lemma boundary_example_match:
  "match_bm25 boundary_example (IntV (int i)) q \<noteq> None \<longleftrightarrow> i = 1000"
  by (simp add: boundary_example_def boundary_bm25_def)

lemma boundary_example_score:
  "fts_score boundary_example q (example_row 1000) = Some 1"
  unfolding example_fts_score [OF boundary_example_data]
  by (simp add: boundary_example_def boundary_bm25_def)

lemma boundary_example_matching:
  "matching_rows boundary_example q = [example_row 1000]"
proof -
  have "filter (\<lambda>i. match_bm25 boundary_example (IntV (int i)) q \<noteq> None) [0..<1001] = [1000]"
    by (rule filter_upt_eq) (auto simp: boundary_example_match)
  then show ?thesis
    by (simp add: example_matching_rows [OF boundary_example_data])
qed

lemma boundary_example_window_0:
  "window_matches boundary_example q 0 = [example_row 1000]"
proof -
  have "filter (\<lambda>i. (0 \<le> int i \<and> int i \<le> 0 + FTS_BATCH_SIZE) \<and>
                   match_bm25 boundary_example (IntV (int i)) q \<noteq> None) [0..<1001] = [1000]"
    by (rule filter_upt_eq) (auto simp: boundary_example_match FTS_BATCH_SIZE_def)
  then show ?thesis
    by (simp add: example_window_matches [OF boundary_example_data])
qed

lemma boundary_example_window_1000:
  "window_matches boundary_example q 1000 = [example_row 1000]"
proof -
  have "filter (\<lambda>i. (1000 \<le> int i \<and> int i \<le> 1000 + FTS_BATCH_SIZE) \<and>
                   match_bm25 boundary_example (IntV (int i)) q \<noteq> None) [0..<1001] = [1000]"
    by (rule filter_upt_eq) (auto simp: boundary_example_match FTS_BATCH_SIZE_def)
  then show ?thesis
    by (simp add: example_window_matches [OF boundary_example_data])
qed

lemma boundary_example_windows: "py_range 0 1001 FTS_BATCH_SIZE = [0, 1000]"
  by (simp add: py_range.simps FTS_BATCH_SIZE_def)

lemma boundary_example_scanned:
  "scanned_windows boundary_example q (0 + 2) [0, 1000] 0 = [0, 1000]"
  by (simp add: boundary_example_window_0 boundary_example_window_1000)

lemma boundary_example_sorted:
  "stable_sort_desc (fts_score boundary_example q) [example_row 1000, example_row 1000] =
     [example_row 1000, example_row 1000]"
  by (simp add: stable_sort_desc_def)

subsection \<open>The index of three rows\<close>

lemma tie_example_data: "data (tie_example e) = example_data 3"
  by (simp add: tie_example_def)

lemma tie_example_wf: "wf_index (tie_example e)"
  by (rule example_wf [OF tie_example_data])

lemma tie_example_scores:
  "fts_score (tie_example e) q (example_row i) = (if i = 2 then Some 1 else Some 2)"
  unfolding example_fts_score [OF tie_example_data]
  by (simp add: tie_example_def tie_bm25_def)

lemma tie_example_rows:
  "rows (data (tie_example e)) = [example_row 0, example_row 1, example_row 2]"
proof -
  have "[0..<3] = [0, 1, 2::nat]" by code_simp
  then show ?thesis by (simp add: tie_example_def example_data_def)
qed

lemma tie_example_matching:
  "matching_rows (tie_example e) q = [example_row 0, example_row 1, example_row 2]"
  by (simp add: matching_rows_def tie_example_rows tie_example_scores)

lemma tie_example_window_0:
  "window_matches (tie_example e) q 0 = [example_row 0, example_row 1, example_row 2]"
  by (simp add: window_matches_def tie_example_rows tie_example_scores between_def FTS_BATCH_SIZE_def
        example_index_id [OF tie_example_data])

lemma tie_example_windows: "py_range 0 3 FTS_BATCH_SIZE = [0]"
  by (simp add: py_range.simps FTS_BATCH_SIZE_def)

lemma tie_example_batches:
  "search_by_batches 3 (tie_example e) q 0 2 =
     (Inr \<lparr>column_names = [''__hf_index_id'', ''text''], rows = [example_row 0, example_row 1]\<rparr>,
      [Execute (FTS_BY_BATCHES_COMMAND q 0 1000)])"
  unfolding search_by_batches_eq [OF tie_example_wf] tie_example_windows
  by (simp add: tie_example_window_0 stable_sort_desc_def tie_example_scores
        window_query_def FTS_BATCH_SIZE_def tie_example_data example_data_def)

lemma tie_example_scored:
  "scored_rows (tie_example e) q (matching_rows (tie_example e) q) =
      [(2, example_row 0 @ [FloatV 2]), (2, example_row 1 @ [FloatV 2]), (1, example_row 2 @ [FloatV 1])]"
  by (simp add: tie_example_matching scored_rows_Cons tie_example_scores)

lemma example_strip:
  "remove_cells [''__hf_fts_score''] [''__hf_index_id'', ''text'', ''__hf_fts_score'']
     (example_row i @ [x]) = example_row i"
  by (simp add: remove_cells_def example_row_def)

lemma tie_example_table_stable:
  "search_by_table (tie_example stable_engine) q 0 2 =
     (Inr \<lparr>column_names = [''__hf_index_id'', ''text''], rows = [example_row 0, example_row 1]\<rparr>,
      [Execute (FTS_BY_TABLE_COMMAND q 0 2)])"
proof -
  have names: "column_names (data (tie_example stable_engine)) = [''__hf_index_id'', ''text'']"
    by (simp add: tie_example_def example_data_def)
  have engine: "order_by_desc (tie_example stable_engine) = stable_sort_desc fst"
    by (simp add: tie_example_def stable_engine_def fun_eq_iff)
  show ?thesis
    unfolding search_by_table_eq [OF tie_example_wf] names engine tie_example_scored
    by (simp add: stable_sort_desc_def example_strip)
qed




lemma tie_example_full_text_search:
  "full_text_search [''/cache/index.duckdb'' \<mapsto> tie_example stable_engine] 3 b
      ''/cache/index.duckdb'' q 0 2 =
     (Inr (IntV 3, \<lparr>column_names = [''__hf_index_id'', ''text''],
                    rows = [example_row 0, example_row 1]\<rparr>),
      [Connect ''/cache/index.duckdb'', Execute (FTS_COUNT_COMMAND q),
       if b then Execute (FTS_BY_BATCHES_COMMAND q 0 1000) else Execute (FTS_BY_TABLE_COMMAND q 0 2)])"
proof -
  have count: "execute (tie_example stable_engine) (FTS_COUNT_COMMAND q) =
                 Inr \<lparr>column_names = [''count_star()''], rows = [[IntV 3]]\<rparr>"
    using tie_example_wf [of stable_engine]
    by (simp add: wf_index_def matching_rows_count tie_example_matching)
  show ?thesis
    by (simp add: full_text_search_def duckdb_connect_def count and_then_def first_cell_def
          tie_example_batches tie_example_table_stable del: execute.simps)
qed


subsection \<open>Ties in the chunked strategy\<close>






subsection \<open>Every row index in one window\<close>



subsection \<open>The windows cover the matching rows\<close>






subsection \<open>Rankings\<close>







subsection \<open>The index with one match in each window\<close>


lemma straddle_example_data: "data straddle_example = example_data 2500"
  by (simp add: straddle_example_def)

lemma straddle_example_match:
  "match_bm25 straddle_example (IntV (int i)) q \<noteq> None \<longleftrightarrow> i = 50 \<or> i = 1200 \<or> i = 2100"
  by (simp add: straddle_example_def straddle_bm25_def)

lemma straddle_example_scores:
  "fts_score straddle_example q (example_row 50) = Some 9.1"
  "fts_score straddle_example q (example_row 1200) = Some 8.7"
  "fts_score straddle_example q (example_row 2100) = Some 9.5"
  unfolding example_fts_score [OF straddle_example_data]
  by (simp_all add: straddle_example_def straddle_bm25_def)

lemma straddle_example_matching:
  "matching_rows straddle_example q = [example_row 50, example_row 1200, example_row 2100]"
proof -
  have "filter (\<lambda>i. match_bm25 straddle_example (IntV (int i)) q \<noteq> None) [0..<2500] = [50, 1200, 2100]"
    by (rule filter_upt_eq) (auto simp: straddle_example_match)
  then show ?thesis
    by (simp add: example_matching_rows [OF straddle_example_data])
qed






lemma straddle_example_table:
  "search_by_table straddle_example q 0 3 =
     (Inr \<lparr>column_names = [''__hf_index_id'', ''text''],
           rows = [example_row 2100, example_row 50, example_row 1200]\<rparr>,
      [Execute (FTS_BY_TABLE_COMMAND q 0 3)])"
proof -
  have names: "column_names (data straddle_example) = [''__hf_index_id'', ''text'']"
    by (simp add: straddle_example_def example_data_def)
  have engine: "order_by_desc straddle_example = stable_sort_desc fst"
    by (simp add: straddle_example_def stable_engine_def fun_eq_iff)
  have scored: "scored_rows straddle_example q (matching_rows straddle_example q) =
      [(9.1, example_row 50 @ [FloatV 9.1]), (8.7, example_row 1200 @ [FloatV 8.7]),
       (9.5, example_row 2100 @ [FloatV 9.5])]"
    by (simp add: straddle_example_matching scored_rows_Cons straddle_example_scores)
  show ?thesis
    unfolding search_by_table_eq [OF example_wf [OF straddle_example_data]] names engine scored
    by (simp add: stable_sort_desc_def example_strip)
qed



subsection \<open>IntColumn\<close>

text \<open>
  C10: \<open>IntColumn.get_cell_value\<close> returns its input unchanged when the value is \<open>None\<close> or
  of exact type \<open>int\<close>, and raises \<open>CellTypeError\<close> for a value of any other type, a
  \<open>bool\<close> or a \<open>float\<close> included; there is no other outcome. The values of exact type
  \<open>int\<close> are the Python integers.
\<close>

theorem get_cell_value_int_or_none:
  "get_cell_value dataset_name config_name split_name row_idx value =
     (if value = PyNone \<or> type_of value = IntType then Inr value else Inl CellTypeError)
   \<and> get_cell_value dataset_name config_name split_name row_idx (PyBool b) = Inl CellTypeError
   \<and> get_cell_value dataset_name config_name split_name row_idx (PyFloat x) = Inl CellTypeError
   \<and> (type_of value = IntType \<longleftrightarrow> (\<exists>i. value = PyInt i))"
  by (cases "value") (simp_all add: get_cell_value_def check_value_def)


subsection \<open>The endpoint's check of \<open>has_fts\<close>\<close>

text \<open>
  C8: when the request's parameters are valid, the authentication passes and the cache
  entry of the index is a success (status 200) that reports \<open>has_fts\<close> as anything other
  than \<open>True\<close>, the endpoint answers with \<open>SearchFeatureNotAvailableError\<close> and has done
  nothing to the outside: no download, no connection to the index, no command.
\<close>

theorem search_endpoint_without_fts:
  assumes "get_request_parameters s = Inr p"
    and "auth_check s (r_dataset p) = None"
    and "get_cache_entry_from_duckdb_index_job s (r_dataset p) (r_config p) (r_split p) = Inr entry"
    and "http_status entry = HTTPStatus_OK"
    and "has_fts (content entry) \<noteq> PyBool True"
  shows "search_endpoint s = (ApiErrorResponse SearchFeatureNotAvailableError, [])"
  using assms by (simp add: search_endpoint_def get_json_api_error_response_def)

theorem search_endpoint_without_fts_witness:
  "get_request_parameters (example_services (PyBool False)) = Inr example_request
   \<and> auth_check (example_services (PyBool False)) (r_dataset example_request) = None
   \<and> get_cache_entry_from_duckdb_index_job (example_services (PyBool False))
        (r_dataset example_request) (r_config example_request) (r_split example_request)
        = Inr (example_entry (PyBool False))
   \<and> http_status (example_entry (PyBool False)) = HTTPStatus_OK
   \<and> has_fts (content (example_entry (PyBool False))) \<noteq> PyBool True
   \<and> search_endpoint (example_services (PyBool False))
        = (ApiErrorResponse SearchFeatureNotAvailableError, [])"
proof -
  have 1: "get_request_parameters (example_services (PyBool False)) = Inr example_request"
    by (simp add: example_services_def)
  have 2: "auth_check (example_services (PyBool False)) (r_dataset example_request) = None"
    by (simp add: example_services_def)
  have 3: "get_cache_entry_from_duckdb_index_job (example_services (PyBool False))
        (r_dataset example_request) (r_config example_request) (r_split example_request)
        = Inr (example_entry (PyBool False))"
    by (simp add: example_services_def)
  have 4: "http_status (example_entry (PyBool False)) = HTTPStatus_OK"
    by (simp add: example_entry_def HTTPStatus_OK_def)
  have 5: "has_fts (content (example_entry (PyBool False))) \<noteq> PyBool True"
    by (simp add: example_entry_def)
  from search_endpoint_without_fts [OF 1 2 3 4 5] 1 2 3 4 5 show ?thesis by blast
qed


subsection \<open>An index without rows\<close>

text \<open>
  C6: with \<open>num_original_rows = 0\<close> the chunked strategy issues no command, and then
  \<open>pa.concat_tables\<close> of no table raises \<open>ArrowInvalid\<close>: no empty table is returned.
\<close>

theorem search_by_batches_no_rows:
  "search_by_batches 0 c query offset len = (Inl ArrowInvalid, [])"
  by (simp add: search_by_batches_def and_then_def concat_tables_def py_range.simps)

subsection \<open>The page of either strategy\<close>




subsection \<open>The total count\<close>

text \<open>
  C2: on a well-formed index that can be opened, \<open>full_text_search\<close> connects, then issues
  the count command once, before any command of the strategy, and the strategy issues no
  count command. The count command returns the number of rows of the index with a non-null
  score, and this number is the \<open>num_rows_total\<close> that is returned, with either strategy.
  The call returns unless the chunked strategy is given no window
  (\<open>num_original_rows \<le> 0\<close>), where \<open>pa.concat_tables\<close> raises.
\<close>

theorem full_text_search_count:
  assumes opened: "files index_file_location = Some c"
    and wf: "wf_index c"
  shows "\<exists>r evs.
      full_text_search files num_original_rows fts_batches index_file_location query offset len =
        (r, Connect index_file_location # Execute (FTS_COUNT_COMMAND query) # evs) \<and>
      filter is_count_command evs = [] \<and>
      execute c (FTS_COUNT_COMMAND query) =
        Inr \<lparr>column_names = [''count_star()''],
             rows = [[IntV (int (length (matching_rows c query)))]]\<rparr> \<and>
      (if fts_batches \<and> num_original_rows \<le> 0 then r = Inl ArrowInvalid
       else \<exists>pa_table. r = Inr (IntV (int (length (matching_rows c query))), pa_table))"
proof -
  let ?total = "IntV (int (length (matching_rows c query)))"
  let ?strategy = "if fts_batches then search_by_batches num_original_rows c query offset len
                   else search_by_table c query offset len"
  have idc: "''__hf_index_id'' \<in> set (column_names (data c))"
    using wf by (simp add: wf_index_def)
  have count: "execute c (FTS_COUNT_COMMAND query) =
                 Inr \<lparr>column_names = [''count_star()''], rows = [[?total]]\<rparr>"
    using idc by (simp add: matching_rows_count)
  have first: "and_then (execute c (FTS_COUNT_COMMAND query)) first_cell = Inr ?total"
    unfolding count by (simp add: and_then_def first_cell_def)
  have fts: "full_text_search files num_original_rows fts_batches index_file_location query offset len =
          (and_then (fst ?strategy) (\<lambda>pa_table. Inr (?total, pa_table)),
           Connect index_file_location # Execute (FTS_COUNT_COMMAND query) # snd ?strategy)"
    by (simp add: full_text_search_def duckdb_connect_def opened first case_prod_beta
          del: execute.simps)
  have nocount: "filter is_count_command (snd ?strategy) = []"
  proof (cases fts_batches)
    case True
    from search_by_batches_wf [OF wf, of num_original_rows query offset len]
    obtain k where "snd (search_by_batches num_original_rows c query offset len) =
             map (\<lambda>w. Execute (window_query query w)) (take k (py_range 0 num_original_rows FTS_BATCH_SIZE))"
      by blast
    with True show ?thesis by (simp add: no_count_in_windows)
  next
    case False
    then show ?thesis by (simp add: search_by_table_events is_count_command_def)
  qed
  have res: "if fts_batches \<and> num_original_rows \<le> 0
             then and_then (fst ?strategy) (\<lambda>pa_table. Inr (?total, pa_table)) = Inl ArrowInvalid
             else \<exists>pa_table. and_then (fst ?strategy) (\<lambda>pa_table. Inr (?total, pa_table)) = Inr (?total, pa_table)"
  proof (cases fts_batches)
    case False
    from search_by_table_returns [OF idc, of query offset len]
    obtain t where "fst (search_by_table c query offset len) = Inr t" by blast
    with False show ?thesis by (simp add: and_then_def)
  next
    case True
    from search_by_batches_wf [OF wf, of num_original_rows query offset len]
    obtain k where r: "fst (search_by_batches num_original_rows c query offset len) =
             (if py_range 0 num_original_rows FTS_BATCH_SIZE = [] then Inl ArrowInvalid
              else Inr \<lparr>column_names = column_names (data c),
                        rows = take len (drop offset (stable_sort_desc (fts_score c query)
                                 (concat (map (window_matches c query) (take k (py_range 0 num_original_rows FTS_BATCH_SIZE))))))\<rparr>)"
      by blast
    have "py_range 0 num_original_rows FTS_BATCH_SIZE = [] \<longleftrightarrow> num_original_rows \<le> 0"
      by (rule py_range_Nil_iff) (simp add: FTS_BATCH_SIZE_def)
    with True r show ?thesis by (simp add: and_then_def)
  qed
  from fts nocount count res show ?thesis by blast
qed

theorem full_text_search_count_witness:
  "[''/cache/index.duckdb'' \<mapsto> tie_example stable_engine] ''/cache/index.duckdb'' =
      Some (tie_example stable_engine)
   \<and> wf_index (tie_example stable_engine)
   \<and> (\<exists>r evs.
        full_text_search [''/cache/index.duckdb'' \<mapsto> tie_example stable_engine] 3 True
            ''/cache/index.duckdb'' ''doc'' 0 2 =
          (r, Connect ''/cache/index.duckdb'' # Execute (FTS_COUNT_COMMAND ''doc'') # evs) \<and>
        filter is_count_command evs = [] \<and>
        execute (tie_example stable_engine) (FTS_COUNT_COMMAND ''doc'') =
          Inr \<lparr>column_names = [''count_star()''],
               rows = [[IntV (int (length (matching_rows (tie_example stable_engine) ''doc'')))]]\<rparr> \<and>
        (if True \<and> (3::int) \<le> 0 then r = Inl ArrowInvalid
         else \<exists>pa_table. r = Inr (IntV (int (length (matching_rows (tie_example stable_engine) ''doc''))),
                                  pa_table)))
   \<and> full_text_search [''/cache/index.duckdb'' \<mapsto> tie_example stable_engine] 3 True
          ''/cache/index.duckdb'' ''doc'' 0 2 =
        (Inr (IntV 3, \<lparr>column_names = [''__hf_index_id'', ''text''],
                       rows = [example_row 0, example_row 1]\<rparr>),
         [Connect ''/cache/index.duckdb'', Execute (FTS_COUNT_COMMAND ''doc''),
          Execute (FTS_BY_BATCHES_COMMAND ''doc'' 0 1000)])
   \<and> full_text_search [''/cache/index.duckdb'' \<mapsto> tie_example stable_engine] 3 False
          ''/cache/index.duckdb'' ''doc'' 0 2 =
        (Inr (IntV 3, \<lparr>column_names = [''__hf_index_id'', ''text''],
                       rows = [example_row 0, example_row 1]\<rparr>),
         [Connect ''/cache/index.duckdb'', Execute (FTS_COUNT_COMMAND ''doc''),
          Execute (FTS_BY_TABLE_COMMAND ''doc'' 0 2)])"
proof -
  have opened: "[''/cache/index.duckdb'' \<mapsto> tie_example stable_engine] ''/cache/index.duckdb'' =
      Some (tie_example stable_engine)"
    by simp
  have wf: "wf_index (tie_example stable_engine)"
    by (rule tie_example_wf)
  note inst = full_text_search_count
    [where files = "[''/cache/index.duckdb'' \<mapsto> tie_example stable_engine]"
       and index_file_location = "''/cache/index.duckdb''" and c = "tie_example stable_engine"
       and num_original_rows = 3 and fts_batches = True and query = "''doc''"
       and offset = 0 and len = 2, OF opened wf]
  have run1: "full_text_search [''/cache/index.duckdb'' \<mapsto> tie_example stable_engine] 3 True
          ''/cache/index.duckdb'' ''doc'' 0 2 =
        (Inr (IntV 3, \<lparr>column_names = [''__hf_index_id'', ''text''],
                       rows = [example_row 0, example_row 1]\<rparr>),
         [Connect ''/cache/index.duckdb'', Execute (FTS_COUNT_COMMAND ''doc''),
          Execute (FTS_BY_BATCHES_COMMAND ''doc'' 0 1000)])"
    using tie_example_full_text_search [of True "''doc''"] by simp
  have run2: "full_text_search [''/cache/index.duckdb'' \<mapsto> tie_example stable_engine] 3 False
          ''/cache/index.duckdb'' ''doc'' 0 2 =
        (Inr (IntV 3, \<lparr>column_names = [''__hf_index_id'', ''text''],
                       rows = [example_row 0, example_row 1]\<rparr>),
         [Connect ''/cache/index.duckdb'', Execute (FTS_COUNT_COMMAND ''doc''),
          Execute (FTS_BY_TABLE_COMMAND ''doc'' 0 2)])"
    using tie_example_full_text_search [of False "''doc''"] by simp
  from opened wf inst run1 run2 show ?thesis by blast
qed

subsection \<open>The scan of the chunked strategy\<close>



subsection \<open>The specification's end-to-end example\<close>

text \<open>
  C4, as the code has it: on the index of 2500 rows where the query matches rows 50
  (score 9.1), 900 (score 9.5), 1200 (score 8.7) and 2100 (score 9.5), the chunked strategy
  with \<open>offset = 0\<close> and \<open>length = 2\<close> scans the windows starting at 0 and at 1000, has three
  rows then, which is more than \<open>offset + length\<close>, and stops before the window of row
  2100; its page is row 900 (score 9.5), then row 50 (score 9.1).
\<close>

theorem spec_example_chunked_page:
  "search_by_batches 2500 spec_example query 0 2 =
     (Inr \<lparr>column_names = [''__hf_index_id'', ''text''], rows = [example_row 900, example_row 50]\<rparr>,
      [Execute (FTS_BY_BATCHES_COMMAND query 0 1000), Execute (FTS_BY_BATCHES_COMMAND query 1000 2000)])
   \<and> length (rows (data spec_example)) = 2500
   \<and> matching_rows spec_example query =
        [example_row 50, example_row 900, example_row 1200, example_row 2100]
   \<and> fts_score spec_example query (example_row 50) = Some 9.1
   \<and> fts_score spec_example query (example_row 900) = Some 9.5
   \<and> fts_score spec_example query (example_row 1200) = Some 8.7
   \<and> fts_score spec_example query (example_row 2100) = Some 9.5"
  by (simp add: spec_example_batches spec_example_matching spec_example_scores
        spec_example_data example_data_def)

text \<open>The page is not the page \<open>[row 900, row 2100]\<close> that the specification's example gives.\<close>

theorem spec_example_chunked_page_counterexample:
  "fst (search_by_batches 2500 spec_example ''doc'' 0 2) \<noteq>
     Inr \<lparr>column_names = [''__hf_index_id'', ''text''], rows = [example_row 900, example_row 2100]\<rparr>"
  by (simp add: spec_example_batches example_row_def)

subsection \<open>Windows overlap at their bounds\<close>

text \<open>
  C5: \<open>BETWEEN\<close> includes both bounds, so the windows \<open>[0, 1000]\<close> and \<open>[1000, 2000]\<close>
  both hold row index 1000. On an index of 1001 rows where the query matches row 1000
  only, both windows return that row and the page holds it twice.
\<close>

theorem boundary_row_twice:
  "search_by_batches 1001 boundary_example query 0 2 =
     (Inr \<lparr>column_names = [''__hf_index_id'', ''text''],
           rows = [example_row 1000, example_row 1000]\<rparr>,
      [Execute (FTS_BY_BATCHES_COMMAND query 0 1000),
       Execute (FTS_BY_BATCHES_COMMAND query 1000 2000)])
   \<and> matching_rows boundary_example query = [example_row 1000]
   \<and> window_matches boundary_example query 0 = [example_row 1000]
   \<and> window_matches boundary_example query 1000 = [example_row 1000]
   \<and> length (rows (data boundary_example)) = 1001"
proof -
  have "search_by_batches 1001 boundary_example query 0 2 =
     (Inr \<lparr>column_names = [''__hf_index_id'', ''text''],
           rows = [example_row 1000, example_row 1000]\<rparr>,
      [Execute (FTS_BY_BATCHES_COMMAND query 0 1000),
       Execute (FTS_BY_BATCHES_COMMAND query 1000 2000)])"
    unfolding search_by_batches_eq [OF example_wf [OF boundary_example_data]] boundary_example_windows
      boundary_example_scanned
    by (simp add: boundary_example_window_0 boundary_example_window_1000 boundary_example_sorted
          window_query_def FTS_BATCH_SIZE_def boundary_example_data example_data_def)
  then show ?thesis
    by (simp add: boundary_example_matching boundary_example_window_0 boundary_example_window_1000
          boundary_example_data example_data_def)
qed

subsection \<open>Rows of equal score\<close>




subsection \<open>The score column\<close>

text \<open>
  C9: a table that either strategy returns has no column \<open>__hf_fts_score\<close>: the direct
  command projects it away and the chunked strategy drops it after the sort. On a
  well-formed index both strategies do return a table (the chunked one when there is a
  window to scan), and its columns are the columns of the index.
\<close>

theorem result_without_score_column:
  "(\<forall>t. fst (search_by_table c query offset len) = Inr t \<longrightarrow>
        ''__hf_fts_score'' \<notin> set (column_names t)) \<and>
   (\<forall>t. fst (search_by_batches n c query offset len) = Inr t \<longrightarrow>
        ''__hf_fts_score'' \<notin> set (column_names t)) \<and>
   (wf_index c \<longrightarrow>
      (\<exists>t. fst (search_by_table c query offset len) = Inr t \<and>
           column_names t = column_names (data c))) \<and>
   (wf_index c \<and> 0 < n \<longrightarrow>
      (\<exists>t. fst (search_by_batches n c query offset len) = Inr t \<and>
           column_names t = column_names (data c)))"
proof (intro conjI allI impI)
  fix t assume "fst (search_by_table c query offset len) = Inr t"
  then show "''__hf_fts_score'' \<notin> set (column_names t)"
    by (auto simp: search_by_table_def Let_def split: if_splits)
next
  fix t assume "fst (search_by_batches n c query offset len) = Inr t"
  then show "''__hf_fts_score'' \<notin> set (column_names t)"
    by (auto simp: search_by_batches_def and_then_def drop_columns_def slice_def
          split: prod.splits sum.splits if_splits)
next
  assume "wf_index c"
  then show "\<exists>t. fst (search_by_table c query offset len) = Inr t \<and>
           column_names t = column_names (data c)"
    by (simp add: search_by_table_eq)
next
  assume "wf_index c \<and> 0 < n"
  then show "\<exists>t. fst (search_by_batches n c query offset len) = Inr t \<and>
           column_names t = column_names (data c)"
    by (simp add: search_by_batches_eq)
qed

theorem result_without_score_column_witness:
  "wf_index (tie_example stable_engine) \<and> (0::int) < 3
   \<and> fst (search_by_table (tie_example stable_engine) ''doc'' 0 2) =
       Inr \<lparr>column_names = [''__hf_index_id'', ''text''], rows = [example_row 0, example_row 1]\<rparr>
   \<and> fst (search_by_batches 3 (tie_example stable_engine) ''doc'' 0 2) =
       Inr \<lparr>column_names = [''__hf_index_id'', ''text''], rows = [example_row 0, example_row 1]\<rparr>
   \<and> ''__hf_fts_score'' \<notin> set (column_names
         \<lparr>column_names = [''__hf_index_id'', ''text''], rows = [example_row 0, example_row 1]\<rparr>)
   \<and> column_names (data (tie_example stable_engine)) = [''__hf_index_id'', ''text'']"
proof -
  have names: "column_names (data (tie_example stable_engine)) = [''__hf_index_id'', ''text'']"
    by (simp add: tie_example_def example_data_def)
  have direct: "fst (search_by_table (tie_example stable_engine) ''doc'' 0 2) =
       Inr \<lparr>column_names = [''__hf_index_id'', ''text''], rows = [example_row 0, example_row 1]\<rparr>"
    by (simp add: tie_example_table_stable)
  have chunked: "fst (search_by_batches 3 (tie_example stable_engine) ''doc'' 0 2) =
       Inr \<lparr>column_names = [''__hf_index_id'', ''text''], rows = [example_row 0, example_row 1]\<rparr>"
    by (simp add: tie_example_batches)
  from result_without_score_column [of "tie_example stable_engine" "''doc''" 0 2 3] direct
  have "''__hf_fts_score'' \<notin> set (column_names
         \<lparr>column_names = [''__hf_index_id'', ''text''], rows = [example_row 0, example_row 1]\<rparr>)"
    by blast
  with names direct chunked tie_example_wf [of stable_engine] show ?thesis by simp
qed

end
